theory Spec2Isabelle
  imports Main "HOL-Library.Word" "HOL-Library.AList"
begin

unbundle bit_operations_syntax

section \<open>The entity-component-system core of pixelz.cpp\<close>

text \<open>
  A shallow embedding of the classes \<open>EntityManager\<close>, \<open>ComponentArray<T>\<close>,
  \<open>ComponentManager\<close>, \<open>SystemManager\<close> and \<open>Coordinator\<close> of \<open>src/pixelz.cpp\<close>.
  Member names lose their trailing underscore (Isabelle rejects such names); methods that
  several classes share are prefixed with the class name. Three names change more:
  \<open>size_\<close> is \<open>array_size\<close>, the \<open>signatures_\<close> of \<open>SystemManager\<close> is \<open>system_signatures\<close>, and
  the local \<open>id\<close> of \<open>create_entity\<close> is \<open>ident\<close>.
\<close>

subsection \<open>Outcomes of a call\<close>

text \<open>
  The source contains no check, no assertion and no error return. A call either returns,
  or lets the one exception of the standard library that can arise propagate
  (\<open>std::bitset::set\<close> throws \<open>std::out_of_range\<close> for a position beyond the width), or
  executes an operation whose behaviour C++ leaves undefined: \<open>front()\<close> and \<open>pop()\<close> on an
  empty \<open>std::queue\<close>, \<open>operator[]\<close> of a \<open>std::array\<close> beyond its bound, \<open>->\<close> on a
  null \<open>std::shared_ptr\<close>. The last kind reports nothing to the caller: what follows is
  arbitrary, and the model stops there. The source has no handler for the exception either,
  so the model keeps no state after it.

  \<open>UndeclaredMember\<close> is of another kind: a call of a member function that no class
  declares. A template with such a call cannot be instantiated, so no program contains the
  call, and the model gives it no result.
\<close>

datatype fault = EmptyQueueFront | ArrayOutOfRange | NullArrayPointer | UndeclaredMember

datatype 'a outcome = Returns 'a | Throws_out_of_range | Undefined fault

fun and_then :: "'a outcome \<Rightarrow> ('a \<Rightarrow> 'b outcome) \<Rightarrow> 'b outcome" where
  "and_then (Returns x) f = f x"
| "and_then Throws_out_of_range f = Throws_out_of_range"
| "and_then (Undefined u) f = Undefined u"

text \<open>A call reports an error when the caller can observe one: here, only the exception.\<close>

fun reports_error :: "'a outcome \<Rightarrow> bool" where
  "reports_error (Returns x) = False"
| "reports_error Throws_out_of_range = True"
| "reports_error (Undefined u) = False"

subsection \<open>Types and constants\<close>

type_synonym Entity = "32 word"

definition MAX_ENTITIES :: nat where
  "MAX_ENTITIES = 5000"

type_synonym ComponentType = "8 word"

definition MAX_COMPONENTS :: nat where
  "MAX_COMPONENTS = 32"

type_synonym Signature = "32 word"

text \<open>\<open>typeid(T).name()\<close>, the key of every map from types.\<close>

type_synonym type_name = string

text \<open>\<open>std::bitset<MAX_COMPONENTS>::set(pos, val)\<close>; \<open>None\<close> is the exception.\<close>

definition bitset_set :: "Signature \<Rightarrow> nat \<Rightarrow> bool \<Rightarrow> Signature option" where
  "bitset_set s pos val =
     (if pos < MAX_COMPONENTS then Some (if val then set_bit pos s else unset_bit pos s)
      else None)"

text \<open>
  \<open>std::unordered_map::operator[]\<close>: a missing key is inserted with the value-initialised
  mapped value \<open>d\<close>, and the map changes.
\<close>

definition subscript :: "('k \<rightharpoonup> 'a) \<Rightarrow> 'k \<Rightarrow> 'a \<Rightarrow> 'a \<times> ('k \<rightharpoonup> 'a)" where
  "subscript m k d = (case m k of Some v \<Rightarrow> (v, m) | None \<Rightarrow> (d, m(k \<mapsto> d)))"

text \<open>\<open>std::unordered_map::insert\<close>: an existing key keeps its value.\<close>

definition insert_new :: "'k \<Rightarrow> 'a \<Rightarrow> ('k \<rightharpoonup> 'a) \<Rightarrow> ('k \<rightharpoonup> 'a)" where
  "insert_new k v m = (case m k of Some _ \<Rightarrow> m | None \<Rightarrow> m(k \<mapsto> v))"

text \<open>
  The two maps the source iterates over (\<open>component_arrays_\<close>, \<open>systems_\<close>) are association
  lists with the same \<open>insert\<close>; every iteration treats each entry on its own, so the
  unspecified order of \<open>std::unordered_map\<close> does not show.
\<close>

definition insert_new_entry :: "'k \<Rightarrow> 'a \<Rightarrow> ('k \<times> 'a) list \<Rightarrow> ('k \<times> 'a) list" where
  "insert_new_entry k v al = (case map_of al k of Some _ \<Rightarrow> al | None \<Rightarrow> al @ [(k, v)])"

subsection \<open>EntityManager\<close>

record EntityManager =
  available_entities :: "Entity list"
  signatures :: "nat \<Rightarrow> Signature"
  living_entity_count :: "32 word"

text \<open>The constructor: ids \<open>0 .. MAX_ENTITIES - 1\<close> are queued in order.\<close>

definition EntityManager_init :: EntityManager where
  "EntityManager_init =
     \<lparr>available_entities = map word_of_nat [0..<MAX_ENTITIES],
      signatures = (\<lambda>_. 0),
      living_entity_count = 0\<rparr>"

definition EntityManager_create_entity :: "EntityManager \<Rightarrow> (Entity \<times> EntityManager) outcome" where
  "EntityManager_create_entity em =
     (case available_entities em of
        [] \<Rightarrow> Undefined EmptyQueueFront
      | ident # rest \<Rightarrow>
          Returns (ident, em\<lparr>available_entities := rest,
                          living_entity_count := living_entity_count em + 1\<rparr>))"

definition EntityManager_destroy_entity :: "Entity \<Rightarrow> EntityManager \<Rightarrow> EntityManager outcome" where
  "EntityManager_destroy_entity entity em =
     (if unat entity < MAX_ENTITIES then
        Returns (em\<lparr>signatures := (signatures em)(unat entity := 0),
                   available_entities := available_entities em @ [entity],
                   living_entity_count := living_entity_count em - 1\<rparr>)
      else Undefined ArrayOutOfRange)"

definition EntityManager_set_signature ::
  "Entity \<Rightarrow> Signature \<Rightarrow> EntityManager \<Rightarrow> EntityManager outcome" where
  "EntityManager_set_signature entity signature em =
     (if unat entity < MAX_ENTITIES then
        Returns (em\<lparr>signatures := (signatures em)(unat entity := signature)\<rparr>)
      else Undefined ArrayOutOfRange)"

definition EntityManager_get_signature :: "Entity \<Rightarrow> EntityManager \<Rightarrow> Signature outcome" where
  "EntityManager_get_signature entity em =
     (if unat entity < MAX_ENTITIES then Returns (signatures em (unat entity))
      else Undefined ArrayOutOfRange)"

subsection \<open>ComponentArray\<close>

text \<open>
  \<open>size_\<close> and the indices are \<open>size_t\<close>, modelled as \<open>nat\<close>; the one place where the
  arithmetic can wrap (\<open>size_ - 1\<close> at \<open>size_ = 0\<close>) is written out.
\<close>

record 'v ComponentArray =
  component_array :: "nat \<Rightarrow> 'v"
  entity_to_index_map :: "Entity \<rightharpoonup> nat"
  index_to_entity_map :: "nat \<rightharpoonup> Entity"
  array_size :: nat

text \<open>
  \<open>std::make_shared<ComponentArray<T>>()\<close> value-initialises the object: \<open>size_\<close> is zero,
  both maps are empty and every slot holds \<open>T{}\<close>, the argument \<open>d\<close>.
\<close>

definition ComponentArray_init :: "'v \<Rightarrow> 'v ComponentArray" where
  "ComponentArray_init d =
     \<lparr>component_array = (\<lambda>_. d), entity_to_index_map = Map.empty,
      index_to_entity_map = Map.empty, array_size = 0\<rparr>"

definition insert_data :: "Entity \<Rightarrow> 'v \<Rightarrow> 'v ComponentArray \<Rightarrow> 'v ComponentArray outcome" where
  "insert_data entity component a =
     (let new_index = array_size a in
      if new_index < MAX_ENTITIES then
        Returns (a\<lparr>entity_to_index_map := (entity_to_index_map a)(entity \<mapsto> new_index),
                  index_to_entity_map := (index_to_entity_map a)(new_index \<mapsto> entity),
                  component_array := (component_array a)(new_index := component),
                  array_size := array_size a + 1\<rparr>)
      else Undefined ArrayOutOfRange)"

definition remove_data :: "Entity \<Rightarrow> 'v ComponentArray \<Rightarrow> 'v ComponentArray outcome" where
  "remove_data entity a =
     (let (indexOfRemovedEntity, e2i) = subscript (entity_to_index_map a) entity 0;
          indexOfLastElement = (if array_size a = 0 then 2 ^ 64 - 1 else array_size a - 1)
      in
      if indexOfRemovedEntity < MAX_ENTITIES \<and> indexOfLastElement < MAX_ENTITIES then
        (let arr = (component_array a)
                     (indexOfRemovedEntity := component_array a indexOfLastElement);
             (entityOfLastElement, i2e) = subscript (index_to_entity_map a) indexOfLastElement 0;
             e2i' = e2i(entityOfLastElement \<mapsto> indexOfRemovedEntity);
             i2e' = i2e(indexOfRemovedEntity \<mapsto> entityOfLastElement)
         in Returns (a\<lparr>component_array := arr,
                       entity_to_index_map := e2i'(entity := None),
                       index_to_entity_map := i2e'(indexOfLastElement := None),
                       array_size := array_size a - 1\<rparr>))
      else Undefined ArrayOutOfRange)"

definition get_data :: "Entity \<Rightarrow> 'v ComponentArray \<Rightarrow> ('v \<times> 'v ComponentArray) outcome" where
  "get_data entity a =
     (let (i, e2i) = subscript (entity_to_index_map a) entity 0 in
      if i < MAX_ENTITIES then Returns (component_array a i, a\<lparr>entity_to_index_map := e2i\<rparr>)
      else Undefined ArrayOutOfRange)"

definition ComponentArray_entity_destroyed ::
  "Entity \<Rightarrow> 'v ComponentArray \<Rightarrow> 'v ComponentArray outcome" where
  "ComponentArray_entity_destroyed entity a =
     (if entity_to_index_map a entity \<noteq> None then remove_data entity a else Returns a)"

subsection \<open>ComponentManager\<close>

record 'v ComponentManager =
  component_types :: "type_name \<rightharpoonup> ComponentType"
  component_arrays :: "(type_name \<times> 'v ComponentArray) list"
  next_component_type :: ComponentType

definition ComponentManager_init :: "'v ComponentManager" where
  "ComponentManager_init =
     \<lparr>component_types = Map.empty, component_arrays = [], next_component_type = 0\<rparr>"

text \<open>The template argument \<open>T\<close> is its name \<open>type_name\<close> together with the value \<open>T{}\<close>.\<close>

definition register_component ::
  "type_name \<Rightarrow> 'v \<Rightarrow> 'v ComponentManager \<Rightarrow> 'v ComponentManager" where
  "register_component type_name d cm =
     cm\<lparr>component_types := insert_new type_name (next_component_type cm) (component_types cm),
        component_arrays :=
          insert_new_entry type_name (ComponentArray_init d) (component_arrays cm),
        next_component_type := next_component_type cm + 1\<rparr>"

definition get_component_type ::
  "type_name \<Rightarrow> 'v ComponentManager \<Rightarrow> ComponentType \<times> 'v ComponentManager" where
  "get_component_type type_name cm =
     (let (t, m) = subscript (component_types cm) type_name 0
      in (t, cm\<lparr>component_types := m\<rparr>))"

text \<open>
  \<open>component_arrays_[type_name]\<close> inserts a null pointer for a type that was never
  registered, and every caller dereferences the result at once.
\<close>

definition get_component_array ::
  "type_name \<Rightarrow> 'v ComponentManager \<Rightarrow> 'v ComponentArray outcome" where
  "get_component_array type_name cm =
     (case map_of (component_arrays cm) type_name of
        None \<Rightarrow> Undefined NullArrayPointer
      | Some a \<Rightarrow> Returns a)"

definition put_component_array ::
  "type_name \<Rightarrow> 'v ComponentArray \<Rightarrow> 'v ComponentManager \<Rightarrow> 'v ComponentManager" where
  "put_component_array type_name a cm =
     cm\<lparr>component_arrays := AList.update type_name a (component_arrays cm)\<rparr>"

definition ComponentManager_add_component ::
  "type_name \<Rightarrow> Entity \<Rightarrow> 'v \<Rightarrow> 'v ComponentManager \<Rightarrow> 'v ComponentManager outcome" where
  "ComponentManager_add_component type_name entity component cm =
     and_then (get_component_array type_name cm) (\<lambda>a.
     and_then (insert_data entity component a) (\<lambda>a'.
     Returns (put_component_array type_name a' cm)))"

text \<open>
  The body is \<open>get_component_array<T>()->RemoveData(entity)\<close>, and \<open>ComponentArray\<close> declares
  \<open>remove_data\<close> only: the template cannot be instantiated, whatever its arguments.
\<close>

definition ComponentManager_remove_component ::
  "type_name \<Rightarrow> Entity \<Rightarrow> 'v ComponentManager \<Rightarrow> 'v ComponentManager outcome" where
  "ComponentManager_remove_component type_name entity cm = Undefined UndeclaredMember"

definition ComponentManager_get_component ::
  "type_name \<Rightarrow> Entity \<Rightarrow> 'v ComponentManager \<Rightarrow> ('v \<times> 'v ComponentManager) outcome" where
  "ComponentManager_get_component type_name entity cm =
     and_then (get_component_array type_name cm) (\<lambda>a.
     and_then (get_data entity a) (\<lambda>(v, a').
     Returns (v, put_component_array type_name a' cm)))"

fun entity_destroyed_arrays ::
  "Entity \<Rightarrow> (type_name \<times> 'v ComponentArray) list \<Rightarrow> (type_name \<times> 'v ComponentArray) list outcome"
  where
  "entity_destroyed_arrays entity [] = Returns []"
| "entity_destroyed_arrays entity ((type_name, component) # rest) =
     and_then (ComponentArray_entity_destroyed entity component) (\<lambda>component'.
     and_then (entity_destroyed_arrays entity rest) (\<lambda>rest'.
     Returns ((type_name, component') # rest')))"

definition ComponentManager_entity_destroyed ::
  "Entity \<Rightarrow> 'v ComponentManager \<Rightarrow> 'v ComponentManager outcome" where
  "ComponentManager_entity_destroyed entity cm =
     and_then (entity_destroyed_arrays entity (component_arrays cm)) (\<lambda>arrays.
     Returns (cm\<lparr>component_arrays := arrays\<rparr>))"

subsection \<open>SystemManager\<close>

record System =
  entities :: "Entity set"

record SystemManager =
  system_signatures :: "type_name \<rightharpoonup> Signature"
  systems :: "(type_name \<times> System) list"

definition SystemManager_init :: SystemManager where
  "SystemManager_init = \<lparr>system_signatures = Map.empty, systems = []\<rparr>"

text \<open>
  The handle that \<open>register_system\<close> returns is the new \<open>System\<close> object; the manager keeps
  it only when the type was not registered before.
\<close>

definition register_system :: "type_name \<Rightarrow> SystemManager \<Rightarrow> SystemManager" where
  "register_system type_name sm =
     sm\<lparr>systems := insert_new_entry type_name \<lparr>entities = {}\<rparr> (systems sm)\<rparr>"

definition SystemManager_set_signature ::
  "type_name \<Rightarrow> Signature \<Rightarrow> SystemManager \<Rightarrow> SystemManager" where
  "SystemManager_set_signature type_name signature sm =
     sm\<lparr>system_signatures := insert_new type_name signature (system_signatures sm)\<rparr>"

definition SystemManager_entity_destroyed :: "Entity \<Rightarrow> SystemManager \<Rightarrow> SystemManager" where
  "SystemManager_entity_destroyed entity sm =
     sm\<lparr>systems :=
          map (\<lambda>(type_name, system). (type_name, system\<lparr>entities := entities system - {entity}\<rparr>))
            (systems sm)\<rparr>"

text \<open>
  The loop of \<open>entity_signature_changed\<close>: \<open>signatures_[type]\<close> is \<open>operator[]\<close>, so the map of
  signatures is threaded through the iterations.
\<close>

fun signature_changed_loop ::
  "Entity \<Rightarrow> Signature \<Rightarrow> (type_name \<times> System) list \<Rightarrow> (type_name \<rightharpoonup> Signature)
     \<Rightarrow> (type_name \<times> System) list \<times> (type_name \<rightharpoonup> Signature)" where
  "signature_changed_loop entity entity_signature [] sigs = ([], sigs)"
| "signature_changed_loop entity entity_signature ((type_name, system) # rest) sigs =
     (let (system_signature, sigs') = subscript sigs type_name 0;
          system' =
            (if (entity_signature AND system_signature) = system_signature
             then system\<lparr>entities := insert entity (entities system)\<rparr>
             else system\<lparr>entities := entities system - {entity}\<rparr>);
          (rest', sigs'') = signature_changed_loop entity entity_signature rest sigs'
      in ((type_name, system') # rest', sigs''))"

definition entity_signature_changed ::
  "Entity \<Rightarrow> Signature \<Rightarrow> SystemManager \<Rightarrow> SystemManager" where
  "entity_signature_changed entity entity_signature sm =
     (let (systems', sigs') =
            signature_changed_loop entity entity_signature (systems sm) (system_signatures sm)
      in sm\<lparr>systems := systems', system_signatures := sigs'\<rparr>)"

subsection \<open>Coordinator\<close>

text \<open>The state after \<open>init()\<close>; before it the three pointers are null.\<close>

record 'v Coordinator =
  component_manager :: "'v ComponentManager"
  entity_manager :: EntityManager
  system_manager :: SystemManager

definition Coordinator_init :: "'v Coordinator" where
  "Coordinator_init =
     \<lparr>component_manager = ComponentManager_init, entity_manager = EntityManager_init,
      system_manager = SystemManager_init\<rparr>"

definition Coordinator_create_entity :: "'v Coordinator \<Rightarrow> (Entity \<times> 'v Coordinator) outcome" where
  "Coordinator_create_entity c =
     and_then (EntityManager_create_entity (entity_manager c)) (\<lambda>(ident, em).
     Returns (ident, c\<lparr>entity_manager := em\<rparr>))"

definition Coordinator_destroy_entity :: "Entity \<Rightarrow> 'v Coordinator \<Rightarrow> 'v Coordinator outcome" where
  "Coordinator_destroy_entity entity c =
     and_then (EntityManager_destroy_entity entity (entity_manager c)) (\<lambda>em.
     and_then (ComponentManager_entity_destroyed entity (component_manager c)) (\<lambda>cm.
     Returns (c\<lparr>entity_manager := em, component_manager := cm,
                system_manager := SystemManager_entity_destroyed entity (system_manager c)\<rparr>)))"

definition Coordinator_register_component :: "type_name \<Rightarrow> 'v \<Rightarrow> 'v Coordinator \<Rightarrow> 'v Coordinator" where
  "Coordinator_register_component type_name d c =
     c\<lparr>component_manager := register_component type_name d (component_manager c)\<rparr>"

definition Coordinator_add_component ::
  "type_name \<Rightarrow> Entity \<Rightarrow> 'v \<Rightarrow> 'v Coordinator \<Rightarrow> 'v Coordinator outcome" where
  "Coordinator_add_component type_name entity component c =
     and_then (ComponentManager_add_component type_name entity component (component_manager c))
       (\<lambda>cm.
     and_then (EntityManager_get_signature entity (entity_manager c)) (\<lambda>signature.
     (let (t, cm') = get_component_type type_name cm in
      case bitset_set signature (unat t) True of
        None \<Rightarrow> Throws_out_of_range
      | Some signature' \<Rightarrow>
          and_then (EntityManager_set_signature entity signature' (entity_manager c)) (\<lambda>em.
          Returns (c\<lparr>component_manager := cm', entity_manager := em,
                     system_manager :=
                       entity_signature_changed entity signature' (system_manager c)\<rparr>)))))"

definition Coordinator_remove_component ::
  "type_name \<Rightarrow> Entity \<Rightarrow> 'v Coordinator \<Rightarrow> 'v Coordinator outcome" where
  "Coordinator_remove_component type_name entity c =
     and_then (ComponentManager_remove_component type_name entity (component_manager c)) (\<lambda>cm.
     and_then (EntityManager_get_signature entity (entity_manager c)) (\<lambda>signature.
     (let (t, cm') = get_component_type type_name cm in
      case bitset_set signature (unat t) False of
        None \<Rightarrow> Throws_out_of_range
      | Some signature' \<Rightarrow>
          and_then (EntityManager_set_signature entity signature' (entity_manager c)) (\<lambda>em.
          Returns (c\<lparr>component_manager := cm', entity_manager := em,
                     system_manager :=
                       entity_signature_changed entity signature' (system_manager c)\<rparr>)))))"

definition Coordinator_get_component ::
  "type_name \<Rightarrow> Entity \<Rightarrow> 'v Coordinator \<Rightarrow> ('v \<times> 'v Coordinator) outcome" where
  "Coordinator_get_component type_name entity c =
     and_then (ComponentManager_get_component type_name entity (component_manager c)) (\<lambda>(v, cm).
     Returns (v, c\<lparr>component_manager := cm\<rparr>))"

definition Coordinator_get_component_type ::
  "type_name \<Rightarrow> 'v Coordinator \<Rightarrow> ComponentType \<times> 'v Coordinator" where
  "Coordinator_get_component_type type_name c =
     (let (t, cm) = get_component_type type_name (component_manager c)
      in (t, c\<lparr>component_manager := cm\<rparr>))"

definition Coordinator_register_system :: "type_name \<Rightarrow> 'v Coordinator \<Rightarrow> 'v Coordinator" where
  "Coordinator_register_system type_name c =
     c\<lparr>system_manager := register_system type_name (system_manager c)\<rparr>"

definition set_system_signature :: "type_name \<Rightarrow> Signature \<Rightarrow> 'v Coordinator \<Rightarrow> 'v Coordinator" where
  "set_system_signature type_name signature c =
     c\<lparr>system_manager := SystemManager_set_signature type_name signature (system_manager c)\<rparr>"

section \<open>Notions used to state the properties\<close>

subsection \<open>Systems and signatures\<close>

text \<open>
  The signature \<open>entity_signature_changed\<close> compares with: the stored one, or the empty bitset
  that \<open>signatures_[type]\<close> inserts for a system without one.
\<close>

definition required_signature :: "SystemManager \<Rightarrow> type_name \<Rightarrow> Signature" where
  "required_signature sm type_name =
     (case system_signatures sm type_name of None \<Rightarrow> 0 | Some s \<Rightarrow> s)"

definition member_of_system :: "Entity \<Rightarrow> type_name \<Rightarrow> SystemManager \<Rightarrow> bool" where
  "member_of_system entity type_name sm =
     (case map_of (systems sm) type_name of
        None \<Rightarrow> False
      | Some system \<Rightarrow> entity \<in> entities system)"

text \<open>Sequences of calls to a \<open>SystemManager\<close>.\<close>

datatype SystemManager_call =
    Register_system type_name
  | Set_signature type_name Signature
  | Entity_destroyed Entity
  | Entity_signature_changed Entity Signature

fun SystemManager_step :: "SystemManager \<Rightarrow> SystemManager_call \<Rightarrow> SystemManager" where
  "SystemManager_step sm (Register_system t) = register_system t sm"
| "SystemManager_step sm (Set_signature t s) = SystemManager_set_signature t s sm"
| "SystemManager_step sm (Entity_destroyed e) = SystemManager_entity_destroyed e sm"
| "SystemManager_step sm (Entity_signature_changed e s) = entity_signature_changed e s sm"

definition SystemManager_run :: "SystemManager_call list \<Rightarrow> SystemManager \<Rightarrow> SystemManager" where
  "SystemManager_run calls sm = foldl SystemManager_step sm calls"

subsection \<open>The pool of entity ids\<close>

text \<open>
  Sequences of \<open>create_entity\<close> and \<open>destroy_entity\<close> calls. Next to the manager runs the
  list \<open>live\<close> of the ids handed out and not destroyed since, which the source does not keep.
\<close>

datatype EntityManager_call = Create_entity | Destroy_entity Entity

fun EntityManager_step ::
  "EntityManager \<times> Entity list \<Rightarrow> EntityManager_call \<Rightarrow> (EntityManager \<times> Entity list) outcome"
  where
  "EntityManager_step (em, live) Create_entity =
     and_then (EntityManager_create_entity em) (\<lambda>(e, em'). Returns (em', e # live))"
| "EntityManager_step (em, live) (Destroy_entity e) =
     and_then (EntityManager_destroy_entity e em) (\<lambda>em'. Returns (em', remove1 e live))"

fun EntityManager_run ::
  "EntityManager_call list \<Rightarrow> EntityManager \<times> Entity list \<Rightarrow> (EntityManager \<times> Entity list) outcome"
  where
  "EntityManager_run [] s = Returns s"
| "EntityManager_run (c # cs) s = and_then (EntityManager_step s c) (EntityManager_run cs)"

text \<open>
  The caller's contract: no creation beyond \<open>MAX_ENTITIES\<close> live entities, no destruction
  of an id that is not live.
\<close>

fun call_permitted :: "Entity list \<Rightarrow> EntityManager_call \<Rightarrow> bool" where
  "call_permitted live Create_entity = (length live < MAX_ENTITIES)"
| "call_permitted live (Destroy_entity e) = (e \<in> set live)"

fun respects_contract :: "EntityManager_call list \<Rightarrow> EntityManager \<times> Entity list \<Rightarrow> bool" where
  "respects_contract [] s = True"
| "respects_contract (c # cs) s =
     (call_permitted (snd s) c \<and>
      (case EntityManager_step s c of Returns s' \<Rightarrow> respects_contract cs s' | _ \<Rightarrow> True))"

definition pool_invariant :: "EntityManager \<times> Entity list \<Rightarrow> bool" where
  "pool_invariant s =
     (case s of (em, live) \<Rightarrow>
        distinct (live @ available_entities em) \<and>
        length (live @ available_entities em) = MAX_ENTITIES \<and>
        list_all (\<lambda>e. unat e < MAX_ENTITIES) (live @ available_entities em))"

text \<open>\<open>n\<close> calls of \<open>create_entity\<close> in a row, with the ids they return.\<close>

fun create_entities :: "nat \<Rightarrow> EntityManager \<Rightarrow> (Entity list \<times> EntityManager) outcome" where
  "create_entities 0 em = Returns ([], em)"
| "create_entities (Suc n) em =
     and_then (EntityManager_create_entity em) (\<lambda>(e, em').
     and_then (create_entities n em') (\<lambda>(es, em'').
     Returns (e # es, em'')))"

subsection \<open>Component arrays\<close>

text \<open>
  The consistency of a \<open>ComponentArray\<close>: the valid entries are the indices below \<open>size_\<close>,
  and the two maps are inverse to each other.
\<close>

definition wf_array :: "'v ComponentArray \<Rightarrow> bool" where
  "wf_array a \<longleftrightarrow>
     array_size a \<le> MAX_ENTITIES \<and>
     dom (index_to_entity_map a) = {i. i < array_size a} \<and>
     (\<forall>e i. entity_to_index_map a e = Some i \<longleftrightarrow> index_to_entity_map a i = Some e)"

text \<open>The component an array holds for an entity, if it holds one.\<close>

definition component_of :: "'v ComponentArray \<Rightarrow> Entity \<Rightarrow> 'v option" where
  "component_of a entity = map_option (component_array a) (entity_to_index_map a entity)"

text \<open>
  \<open>a'\<close> is \<open>a\<close> without the entity: its entry is gone, every other entity keeps its
  component, and an array that held nothing for the entity is the same.
\<close>

definition purged :: "Entity \<Rightarrow> 'v ComponentArray \<Rightarrow> 'v ComponentArray \<Rightarrow> bool" where
  "purged e a a' \<longleftrightarrow>
     entity_to_index_map a' e = None \<and>
     (\<forall>e'. e' \<noteq> e \<longrightarrow> component_of a' e' = component_of a e') \<and>
     (entity_to_index_map a e = None \<longrightarrow> a' = a)"

subsection \<open>The common part of adding and removing a component\<close>

text \<open>
  After the array is changed, \<open>add_component\<close> and \<open>remove_component\<close> run the same four
  statements on the signature, with \<open>true\<close> or \<open>false\<close> for the bit.
\<close>

definition update_signature ::
  "type_name \<Rightarrow> Entity \<Rightarrow> bool \<Rightarrow> 'v ComponentManager \<Rightarrow> 'v Coordinator \<Rightarrow> 'v Coordinator outcome"
  where
  "update_signature type_name entity val cm c =
     and_then (EntityManager_get_signature entity (entity_manager c)) (\<lambda>signature.
     (let (t, cm') = get_component_type type_name cm in
      case bitset_set signature (unat t) val of
        None \<Rightarrow> Throws_out_of_range
      | Some signature' \<Rightarrow>
          and_then (EntityManager_set_signature entity signature' (entity_manager c)) (\<lambda>em.
          Returns (c\<lparr>component_manager := cm', entity_manager := em,
                     system_manager :=
                       entity_signature_changed entity signature' (system_manager c)\<rparr>))))"

subsection \<open>Sequences of calls to the coordinator\<close>

datatype 'v Coordinator_call =
    Call_create_entity
  | Call_destroy_entity Entity
  | Call_add_component type_name Entity 'v
  | Call_remove_component type_name Entity

fun Coordinator_step :: "'v Coordinator \<Rightarrow> 'v Coordinator_call \<Rightarrow> 'v Coordinator outcome" where
  "Coordinator_step c Call_create_entity =
     and_then (Coordinator_create_entity c) (\<lambda>(e, c'). Returns c')"
| "Coordinator_step c (Call_destroy_entity e) = Coordinator_destroy_entity e c"
| "Coordinator_step c (Call_add_component T e v) = Coordinator_add_component T e v c"
| "Coordinator_step c (Call_remove_component T e) = Coordinator_remove_component T e c"

fun Coordinator_run :: "'v Coordinator_call list \<Rightarrow> 'v Coordinator \<Rightarrow> 'v Coordinator outcome" where
  "Coordinator_run [] c = Returns c"
| "Coordinator_run (call # calls) c = and_then (Coordinator_step c call) (Coordinator_run calls)"

text \<open>The signature the entity manager stores for an entity.\<close>

definition entity_signature :: "'v Coordinator \<Rightarrow> Entity \<Rightarrow> Signature" where
  "entity_signature c e = signatures (entity_manager c) (unat e)"

text \<open>
  No entity was created or changed yet: every stored signature is empty, and so is every
  system's set.
\<close>

definition unpopulated :: "'v Coordinator \<Rightarrow> bool" where
  "unpopulated c \<longleftrightarrow>
     (\<forall>i < MAX_ENTITIES. signatures (entity_manager c) i = 0) \<and>
     list_all (\<lambda>(S, system). entities system = {}) (systems (system_manager c))"

text \<open>
  A registered system's set holds exactly the ids in range whose signature contains the
  system's.
\<close>

definition in_sync :: "'v Coordinator \<Rightarrow> type_name \<Rightarrow> bool" where
  "in_sync c S \<longleftrightarrow>
     map_of (systems (system_manager c)) S \<noteq> None \<and>
     (\<forall>e. member_of_system e S (system_manager c) \<longleftrightarrow>
          unat e < MAX_ENTITIES \<and>
          (entity_signature c e AND required_signature (system_manager c) S) =
            required_signature (system_manager c) S)"

subsection \<open>Scenarios\<close>

text \<open>
  A coordinator after setup: one component type \<open>Pixel\<close> (with values in \<open>nat\<close>), one system
  \<open>Render\<close> that requires it (bit 0).
\<close>

definition sample_setup :: "nat Coordinator" where
  "sample_setup =
     set_system_signature ''Render'' 1
       (Coordinator_register_system ''Render''
         (Coordinator_register_component ''Pixel'' 0 Coordinator_init))"

text \<open>Two component types: \<open>Gravity\<close> gets the type id 0 and \<open>Pixel\<close> the type id 1.\<close>

definition two_types_setup :: "nat Coordinator" where
  "two_types_setup =
     Coordinator_register_component ''Pixel'' 0
       (Coordinator_register_component ''Gravity'' 0 Coordinator_init)"

text \<open>An entity is created and gets a \<open>Pixel\<close>.\<close>

definition sample_populated :: "nat Coordinator outcome" where
  "sample_populated =
     and_then (Coordinator_create_entity sample_setup) (\<lambda>(e, c).
     Coordinator_add_component ''Pixel'' e 7 c)"

text \<open>The pool is drained, then one more entity is asked for.\<close>

definition create_after_exhaustion :: "(Entity \<times> EntityManager) outcome" where
  "create_after_exhaustion =
     and_then (create_entities MAX_ENTITIES EntityManager_init) (\<lambda>(ids, em).
     EntityManager_create_entity em)"

text \<open>An entity is created and destroyed twice.\<close>

definition destroy_twice :: "EntityManager outcome" where
  "destroy_twice =
     and_then (EntityManager_create_entity EntityManager_init) (\<lambda>(e, em).
     and_then (EntityManager_destroy_entity e em) (\<lambda>em.
     EntityManager_destroy_entity e em))"

text \<open>An entity gets the same component type twice, and the component is read.\<close>

definition add_component_twice :: "nat outcome" where
  "add_component_twice =
     and_then (Coordinator_create_entity sample_setup) (\<lambda>(e, c).
     and_then (Coordinator_add_component ''Pixel'' e 1 c) (\<lambda>c.
     and_then (Coordinator_add_component ''Pixel'' e 2 c) (\<lambda>c.
     and_then (Coordinator_get_component ''Pixel'' e c) (\<lambda>(v, c). Returns v))))"

text \<open>A component is added and removed.\<close>

definition remove_after_add :: "nat Coordinator outcome" where
  "remove_after_add =
     and_then (Coordinator_create_entity sample_setup) (\<lambda>(e, c).
     and_then (Coordinator_add_component ''Pixel'' e 7 c) (\<lambda>c.
     Coordinator_remove_component ''Pixel'' e c))"

text \<open>
  The id \<open>0\<close> is destroyed before any entity exists; then \<open>MAX_ENTITIES\<close> entities are
  created, the entity \<open>1\<close> is destroyed, and one more entity is created. The result is the
  id of the last entity, and whether an entity created before and not destroyed has it.
\<close>

definition uncreated_id_reissued :: "(Entity \<times> bool) outcome" where
  "uncreated_id_reissued =
     and_then (EntityManager_destroy_entity 0 EntityManager_init) (\<lambda>em.
     and_then (create_entities MAX_ENTITIES em) (\<lambda>(ids, em).
     and_then (EntityManager_destroy_entity 1 em) (\<lambda>em.
     and_then (EntityManager_create_entity em) (\<lambda>(ident, em).
     Returns (ident, ident \<in> set (remove1 1 ids))))))"

text \<open>A component the entity does not have is read, then the entity is destroyed.\<close>

definition destroy_after_stray_get :: "nat Coordinator outcome" where
  "destroy_after_stray_get =
     and_then (Coordinator_create_entity sample_setup) (\<lambda>(e, c).
     and_then (Coordinator_get_component ''Pixel'' e c) (\<lambda>(v, c).
     Coordinator_destroy_entity e c))"

text \<open>
  A system with the empty signature, set before any entity exists; two entities are
  created, the first gets a component, and the second is looked at: its id, whether the
  system's set holds it, its signature and the system's.
\<close>

definition empty_signature_setup :: "nat Coordinator" where
  "empty_signature_setup =
     set_system_signature ''Render'' 0
       (Coordinator_register_system ''Render''
         (Coordinator_register_component ''Pixel'' 0 Coordinator_init))"

definition unmutated_entity_observed :: "(Entity \<times> bool \<times> Signature \<times> Signature) outcome" where
  "unmutated_entity_observed =
     and_then (Coordinator_create_entity empty_signature_setup) (\<lambda>(e1, c).
     and_then (Coordinator_create_entity c) (\<lambda>(e2, c).
     and_then (Coordinator_add_component ''Pixel'' e1 7 c) (\<lambda>c.
     Returns (e2, member_of_system e2 ''Render'' (system_manager c), entity_signature c e2,
              required_signature (system_manager c) ''Render''))))"

section \<open>Basic facts\<close>

lemma and_then_Returns:
  "and_then m f = Returns y \<longleftrightarrow> (\<exists>x. m = Returns x \<and> f x = Returns y)"
  by (cases m) simp_all

lemma range_facts:
  "unat (0 :: Entity) < MAX_ENTITIES" "0 < MAX_ENTITIES" "Suc 0 < MAX_ENTITIES"
  "unat (1 :: Entity) < MAX_ENTITIES" "\<not> 18446744073709551615 < MAX_ENTITIES"
  "Suc 0 \<le> MAX_ENTITIES"
  by (simp_all add: MAX_ENTITIES_def)

lemma Coordinator_add_component_eq:
  "Coordinator_add_component T e v c =
     and_then (ComponentManager_add_component T e v (component_manager c))
       (\<lambda>cm. update_signature T e True cm c)"
  by (simp add: Coordinator_add_component_def update_signature_def)

lemma Coordinator_remove_component_eq:
  "Coordinator_remove_component T e c =
     and_then (ComponentManager_remove_component T e (component_manager c))
       (\<lambda>cm. update_signature T e False cm c)"
  by (simp add: Coordinator_remove_component_def update_signature_def)

lemma subscript_fst: "fst (subscript m k d) = (case m k of None \<Rightarrow> d | Some v \<Rightarrow> v)"
  by (simp add: subscript_def split: option.splits)

lemma subscript_snd:
  "snd (subscript m k d) k' = (if k' = k \<and> m k = None then Some d else m k')"
  by (simp add: subscript_def split: option.splits)

section \<open>SystemManager: membership and signatures\<close>

lemma loop_sigs:
  "snd (signature_changed_loop e es sys sigs) k =
     (case sigs k of Some s \<Rightarrow> Some s
      | None \<Rightarrow> if k \<in> fst ` set sys then Some 0 else None)"
proof (induction sys arbitrary: sigs)
  case Nil
  then show ?case by (simp split: option.splits)
next
  case (Cons p sys)
  obtain t system where p: "p = (t, system)" by (cases p)
  show ?case
    by (simp add: p Cons.IH split_beta Let_def subscript_snd split: option.splits)
qed

lemma loop_lookup:
  "map_of (fst (signature_changed_loop e es sys sigs)) S =
     map_option (\<lambda>system.
        if (es AND (case sigs S of None \<Rightarrow> 0 | Some s \<Rightarrow> s)) =
             (case sigs S of None \<Rightarrow> 0 | Some s \<Rightarrow> s)
        then system\<lparr>entities := insert e (entities system)\<rparr>
        else system\<lparr>entities := entities system - {e}\<rparr>) (map_of sys S)"
proof (induction sys arbitrary: sigs)
  case Nil
  then show ?case by simp
next
  case (Cons p sys)
  obtain t system where p: "p = (t, system)" by (cases p)
  show ?case
    by (simp add: p Cons.IH split_beta Let_def subscript_snd subscript_fst split: option.splits)
qed

lemma member_after_change:
  "member_of_system e' S (entity_signature_changed e es sm) =
     (map_of (systems sm) S \<noteq> None \<and>
      (if e' = e then (es AND required_signature sm S) = required_signature sm S
       else member_of_system e' S sm))"
  by (auto simp: member_of_system_def entity_signature_changed_def split_beta Let_def
      loop_lookup required_signature_def split: option.splits)

lemma required_after_change:
  "required_signature (entity_signature_changed e es sm) S = required_signature sm S"
  by (simp add: required_signature_def entity_signature_changed_def split_beta Let_def
      loop_sigs split: option.splits)

lemma member_after_destroyed:
  "member_of_system e' S (SystemManager_entity_destroyed e sm) =
     (e' \<noteq> e \<and> member_of_system e' S sm)"
  by (auto simp: member_of_system_def SystemManager_entity_destroyed_def map_of_map
      split_beta comp_def split: option.splits)

lemma required_signature_step:
  assumes "\<forall>sg. call \<noteq> Set_signature S sg"
  shows "required_signature (SystemManager_step sm call) S = required_signature sm S"
proof (cases call)
  case (Register_system t)
  then show ?thesis by (simp add: register_system_def required_signature_def)
next
  case (Set_signature t sg)
  with assms have "t \<noteq> S" by simp
  with Set_signature show ?thesis
    by (simp add: SystemManager_set_signature_def required_signature_def insert_new_def
        split: option.splits)
next
  case (Entity_destroyed e)
  then show ?thesis by (simp add: SystemManager_entity_destroyed_def required_signature_def)
next
  case (Entity_signature_changed e sg)
  then show ?thesis by (simp add: required_after_change)
qed

lemma required_signature_run:
  "\<forall>sg. Set_signature S sg \<notin> set calls \<Longrightarrow>
   required_signature (SystemManager_run calls sm) S = required_signature sm S"
  unfolding SystemManager_run_def
proof (induction calls arbitrary: sm)
  case Nil
  then show ?case by simp
next
  case (Cons call calls)
  then have "\<forall>sg. call \<noteq> Set_signature S sg" by auto
  from required_signature_step [OF this] Cons show ?case by simp
qed

text \<open>
  C9. A second \<open>set_signature\<close> for a system type leaves the manager as it was: the stored
  signature is still the first one, and \<open>entity_signature_changed\<close> goes on deciding
  membership in a registered system by the first signature.
\<close>

theorem set_signature_second_call_ignored:
  assumes "system_signatures sm S = Some sig1"
  shows "SystemManager_set_signature S sig2 sm = sm \<and>
         system_signatures (SystemManager_set_signature S sig2 sm) S = Some sig1 \<and>
         member_of_system e S
             (entity_signature_changed e es (SystemManager_set_signature S sig2 sm)) =
           (map_of (systems sm) S \<noteq> None \<and> (es AND sig1) = sig1)"
proof -
  from assms have same: "SystemManager_set_signature S sig2 sm = sm"
    by (simp add: SystemManager_set_signature_def insert_new_def)
  moreover from assms have "required_signature sm S = sig1"
    by (simp add: required_signature_def)
  ultimately show ?thesis using assms by (simp add: member_after_change)
qed

theorem set_signature_second_call_ignored_witness:
  "SystemManager_set_signature ''Render'' 6 (system_manager sample_setup) =
     system_manager sample_setup \<and>
   member_of_system 3 ''Render''
     (entity_signature_changed 3 5
        (SystemManager_set_signature ''Render'' 6 (system_manager sample_setup)))"
proof -
  have stored: "system_signatures (system_manager sample_setup) ''Render'' = Some 1"
    by (simp add: sample_setup_def set_system_signature_def Coordinator_register_system_def
        Coordinator_register_component_def Coordinator_init_def SystemManager_init_def
        register_system_def SystemManager_set_signature_def insert_new_def)
  have registered: "map_of (systems (system_manager sample_setup)) ''Render'' \<noteq> None"
    by (simp add: sample_setup_def set_system_signature_def Coordinator_register_system_def
        Coordinator_register_component_def Coordinator_init_def SystemManager_init_def
        register_system_def SystemManager_set_signature_def insert_new_entry_def)
  have match: "(5 :: Signature) AND 1 = 1" by simp
  note ignored = set_signature_second_call_ignored [OF stored, of 6 3 5]
  from ignored [THEN conjunct2, THEN conjunct2] registered match
  have "member_of_system 3 ''Render''
     (entity_signature_changed 3 5
        (SystemManager_set_signature ''Render'' 6 (system_manager sample_setup)))"
    by simp
  with ignored [THEN conjunct1] show ?thesis by (rule conjI)
qed

text \<open>
  C10. For a registered system whose signature was never set, \<open>entity_signature_changed\<close>
  compares with the empty bitset, and so puts every entity into the system's set, whatever
  the entity's signature.
\<close>

theorem unset_signature_matches_every_entity:
  assumes never_set: "\<forall>sg. Set_signature S sg \<notin> set calls"
    and registered: "map_of (systems (SystemManager_run calls SystemManager_init)) S \<noteq> None"
  shows "required_signature (SystemManager_run calls SystemManager_init) S = 0 \<and>
         member_of_system e S
           (entity_signature_changed e es (SystemManager_run calls SystemManager_init))"
proof -
  have "required_signature SystemManager_init S = 0"
    by (simp add: required_signature_def SystemManager_init_def)
  with required_signature_run [OF never_set]
  have "required_signature (SystemManager_run calls SystemManager_init) S = 0" by simp
  with registered show ?thesis by (simp add: member_after_change)
qed

theorem unset_signature_matches_every_entity_witness:
  "member_of_system 3 ''Render''
     (entity_signature_changed 3 5
        (SystemManager_run [Register_system ''Render'', Entity_signature_changed 4 0]
           SystemManager_init))"
proof -
  have "\<forall>sg. Set_signature ''Render'' sg
          \<notin> set [Register_system ''Render'', Entity_signature_changed 4 0]"
    by simp
  moreover have "map_of (systems (SystemManager_run
        [Register_system ''Render'', Entity_signature_changed 4 0] SystemManager_init)) ''Render''
      \<noteq> None"
    by (simp add: SystemManager_run_def register_system_def SystemManager_init_def
        insert_new_entry_def entity_signature_changed_def subscript_def)
  ultimately show ?thesis
    using unset_signature_matches_every_entity by blast
qed

section \<open>EntityManager: the pool of ids\<close>

lemma unat_word_of_nat_entity: "i < MAX_ENTITIES \<Longrightarrow> unat (word_of_nat i :: Entity) = i"
  by (simp add: MAX_ENTITIES_def unat_of_nat)

lemma inj_on_entity_ids: "inj_on (word_of_nat :: nat \<Rightarrow> Entity) {0..<MAX_ENTITIES}"
  by (rule inj_onI) (metis atLeastLessThan_iff unat_word_of_nat_entity)

lemma pool_invariant_init: "pool_invariant (EntityManager_init, [])"
  by (simp add: pool_invariant_def EntityManager_init_def distinct_map inj_on_entity_ids
      list_all_iff unat_word_of_nat_entity)

lemma pool_invariant_step:
  assumes "pool_invariant s" and "call_permitted (snd s) c"
  shows "\<exists>s'. EntityManager_step s c = Returns s' \<and> pool_invariant s'"
proof -
  obtain em live where s: "s = (em, live)" by (cases s)
  show ?thesis
  proof (cases c)
    case Create_entity
    with assms s have "available_entities em \<noteq> []"
      by (auto simp: pool_invariant_def)
    then obtain e rest where "available_entities em = e # rest"
      by (cases "available_entities em") auto
    with assms s Create_entity show ?thesis
      by (auto simp: pool_invariant_def EntityManager_create_entity_def)
  next
    case (Destroy_entity e)
    with assms s have e: "e \<in> set live" by simp
    with assms s have "unat e < MAX_ENTITIES"
      by (auto simp: pool_invariant_def list_all_iff)
    moreover from e have "length (remove1 e live) + 1 = length live"
      using length_pos_if_in_set [OF e] by (simp add: length_remove1)
    ultimately show ?thesis using assms s Destroy_entity e
      by (auto simp: pool_invariant_def EntityManager_destroy_entity_def list_all_iff
          dest: notin_set_remove1)
  qed
qed

lemma run_respecting_contract:
  "pool_invariant s \<Longrightarrow> respects_contract calls s \<Longrightarrow>
   \<exists>s'. EntityManager_run calls s = Returns s' \<and> pool_invariant s'"
proof (induction calls arbitrary: s)
  case Nil
  then show ?case by simp
next
  case (Cons c cs)
  from Cons.prems obtain s1 where s1: "EntityManager_step s c = Returns s1" "pool_invariant s1"
    using pool_invariant_step by fastforce
  with Cons.prems have "respects_contract cs s1" by simp
  with Cons.IH s1 show ?case by simp
qed

lemma card_entity_range: "card {e :: Entity. unat e < MAX_ENTITIES} = MAX_ENTITIES"
proof -
  have "{e :: Entity. unat e < MAX_ENTITIES} = word_of_nat ` {0..<MAX_ENTITIES}"
  proof (rule set_eqI)
    fix e :: Entity
    show "e \<in> {e. unat e < MAX_ENTITIES} \<longleftrightarrow> e \<in> word_of_nat ` {0..<MAX_ENTITIES}"
    proof
      assume "e \<in> {e. unat e < MAX_ENTITIES}"
      then have "unat e \<in> {0..<MAX_ENTITIES}" and "e = word_of_nat (unat e)" by simp_all
      then show "e \<in> word_of_nat ` {0..<MAX_ENTITIES}" by (rule_tac image_eqI)
    next
      assume "e \<in> word_of_nat ` {0..<MAX_ENTITIES}"
      then show "e \<in> {e. unat e < MAX_ENTITIES}"
        by (auto simp: unat_word_of_nat_entity)
    qed
  qed
  then show ?thesis by (simp add: card_image inj_on_entity_ids)
qed

lemma pool_invariant_covers:
  assumes "pool_invariant (em, live)"
  shows "set live \<union> set (available_entities em) = {e. unat e < MAX_ENTITIES}"
proof -
  let ?xs = "live @ available_entities em"
  from assms have d: "distinct ?xs" and l: "length ?xs = MAX_ENTITIES"
    and r: "set ?xs \<subseteq> {e. unat e < MAX_ENTITIES}"
    by (auto simp: pool_invariant_def list_all_iff)
  have fin: "finite {e :: Entity. unat e < MAX_ENTITIES}" by simp
  from d l have "card (set ?xs) = MAX_ENTITIES" by (metis distinct_card)
  with r fin have "set ?xs = {e. unat e < MAX_ENTITIES}"
    by (metis card_entity_range card_subset_eq)
  then show ?thesis by simp
qed

lemma count_list_distinct: "distinct xs \<Longrightarrow> count_list xs x = (if x \<in> set xs then 1 else 0)"
  by (induction xs) auto

lemma entity_ids_from:
  "n < MAX_ENTITIES \<Longrightarrow>
   map word_of_nat [n..<MAX_ENTITIES] =
     (word_of_nat n :: Entity) # map word_of_nat [Suc n..<MAX_ENTITIES]"
  by (simp add: upt_conv_Cons)

lemma create_entity_init:
  "EntityManager_create_entity EntityManager_init =
     Returns (0, \<lparr>available_entities = map word_of_nat [1..<MAX_ENTITIES],
                  signatures = (\<lambda>_. 0), living_entity_count = 1\<rparr>)"
  using entity_ids_from [of 0]
  by (simp add: EntityManager_create_entity_def EntityManager_init_def MAX_ENTITIES_def)

lemma create_entities_drains:
  "available_entities em = xs @ rest \<Longrightarrow>
   create_entities (length xs) em =
     Returns (xs, em\<lparr>available_entities := rest,
                       living_entity_count := living_entity_count em + word_of_nat (length xs)\<rparr>)"
proof (induction xs arbitrary: em)
  case Nil
  then show ?case by simp
next
  case (Cons x xs)
  let ?em = "em\<lparr>available_entities := xs @ rest,
                living_entity_count := living_entity_count em + 1\<rparr>"
  have "available_entities ?em = xs @ rest" by simp
  from Cons.IH [OF this] Cons.prems show ?case
    by (simp add: EntityManager_create_entity_def add.assoc)
qed

lemma create_entities_init:
  "create_entities MAX_ENTITIES EntityManager_init =
     Returns (map word_of_nat [0..<MAX_ENTITIES],
              \<lparr>available_entities = [], signatures = (\<lambda>_. 0),
               living_entity_count = word_of_nat MAX_ENTITIES\<rparr>)"
  using create_entities_drains [of EntityManager_init "map word_of_nat [0..<MAX_ENTITIES]" "[]"]
  by (simp add: EntityManager_init_def)

text \<open>
  C8, as the code has it. Along every sequence of \<open>create_entity\<close> and \<open>destroy_entity\<close>
  calls on a fresh manager that never has more than \<open>MAX_ENTITIES\<close> live entities and
  destroys live ids only, every call returns, the live ids are pairwise different, and the
  pool holds each id in range that is not live exactly once and no live id: a destroyed id
  is available for reuse once.
\<close>

theorem ids_unique_and_recycled_once:
  assumes "respects_contract calls (EntityManager_init, [])"
  shows "\<exists>em live. EntityManager_run calls (EntityManager_init, []) = Returns (em, live) \<and>
           distinct live \<and>
           (\<forall>e. count_list (available_entities em) e =
                  (if unat e < MAX_ENTITIES \<and> e \<notin> set live then 1 else 0))"
proof -
  from assms obtain em live
    where run: "EntityManager_run calls (EntityManager_init, []) = Returns (em, live)"
      and inv: "pool_invariant (em, live)"
    using run_respecting_contract [OF pool_invariant_init] by fastforce
  from inv have d: "distinct live" "distinct (available_entities em)"
    and disj: "set live \<inter> set (available_entities em) = {}"
    by (auto simp: pool_invariant_def)
  have "count_list (available_entities em) e =
          (if unat e < MAX_ENTITIES \<and> e \<notin> set live then 1 else 0)" for e
    using pool_invariant_covers [OF inv] disj d(2) by (auto simp: count_list_distinct)
  with run d(1) show ?thesis by blast
qed

theorem ids_unique_and_recycled_once_witness:
  "\<exists>em live. EntityManager_run [Create_entity, Destroy_entity 0] (EntityManager_init, []) =
       Returns (em, live) \<and>
     distinct live \<and> count_list (available_entities em) 0 = 1"
proof -
  have "respects_contract [Create_entity, Destroy_entity 0] (EntityManager_init, [])"
    by (simp add: create_entity_init EntityManager_destroy_entity_def range_facts)
  from ids_unique_and_recycled_once [OF this] obtain em live
    where run: "EntityManager_run [Create_entity, Destroy_entity 0] (EntityManager_init, []) =
                  Returns (em, live)"
      and d: "distinct live"
      and c: "\<forall>e. count_list (available_entities em) e =
                  (if unat e < MAX_ENTITIES \<and> e \<notin> set live then 1 else 0)"
    by blast
  from run have "live = []"
    by (auto simp: create_entity_init EntityManager_destroy_entity_def range_facts)
  with c have "count_list (available_entities em) 0 = 1"
    by (simp add: range_facts)
  with run d show ?thesis by blast
qed

text \<open>
  C8 as stated fails: no id is destroyed twice and there are never more than
  \<open>MAX_ENTITIES\<close> entities, but the id \<open>0\<close> is destroyed before it was handed out, is queued
  twice, and the last entity gets the id \<open>0\<close> of the first one, which is still live.
\<close>

theorem uncreated_id_reissued_shared: "uncreated_id_reissued = Returns (0, True)"
proof -
  let ?ids = "map word_of_nat [0..<MAX_ENTITIES] :: Entity list"
  let ?em1 = "\<lparr>available_entities = ?ids @ [0], signatures = (\<lambda>_. 0)(0 := 0),
                living_entity_count = - 1\<rparr>"
  have destroyed: "EntityManager_destroy_entity 0 EntityManager_init = Returns ?em1"
    by (simp add: EntityManager_destroy_entity_def EntityManager_init_def range_facts)
  have created: "create_entities MAX_ENTITIES ?em1 =
      Returns (?ids, ?em1\<lparr>available_entities := [0],
                            living_entity_count := - 1 + word_of_nat MAX_ENTITIES\<rparr>)"
    using create_entities_drains [of ?em1 ?ids "[0]"] by simp
  have "?ids = 0 # map word_of_nat [Suc 0..<MAX_ENTITIES]"
    using entity_ids_from [of 0] by (simp add: range_facts)
  then have "(0 :: Entity) \<in> set ?ids" by simp
  then have live: "(0 :: Entity) \<in> set (remove1 1 ?ids)" by simp
  from destroyed created live show ?thesis
    by (simp add: uncreated_id_reissued_def EntityManager_destroy_entity_def
        EntityManager_create_entity_def range_facts)
qed

text \<open>
  C5, as the code has it. \<open>MAX_ENTITIES\<close> creations on a fresh manager return the ids
  \<open>0 .. MAX_ENTITIES - 1\<close> and leave the queue empty; the next \<open>create_entity\<close> calls
  \<open>front()\<close> and \<open>pop()\<close> on the empty queue, which is undefined behaviour. No capacity error
  exists in the source.
\<close>

theorem create_on_exhausted_pool:
  "\<exists>em. create_entities MAX_ENTITIES EntityManager_init =
           Returns (map word_of_nat [0..<MAX_ENTITIES], em) \<and>
        available_entities em = [] \<and>
        EntityManager_create_entity em = Undefined EmptyQueueFront"
  by (simp add: create_entities_init EntityManager_create_entity_def)

text \<open>C5 as stated fails: the call after exhaustion reports no error.\<close>

theorem create_after_exhaustion_undefined:
  "create_after_exhaustion = Undefined EmptyQueueFront \<and> \<not> reports_error create_after_exhaustion"
  by (simp add: create_after_exhaustion_def create_entities_init EntityManager_create_entity_def)

text \<open>
  C6, as the code has it. \<open>destroy_entity\<close> does not look at the pool: called twice for an
  id in range it returns twice, the id is queued twice, and the count of living entities
  goes down twice.
\<close>

theorem second_destroy_pushes_again:
  assumes "unat e < MAX_ENTITIES"
  shows "\<exists>em'. and_then (EntityManager_destroy_entity e em) (EntityManager_destroy_entity e) =
               Returns em' \<and>
             available_entities em' = available_entities em @ [e, e] \<and>
             living_entity_count em' = living_entity_count em - 2"
  using assms by (simp add: EntityManager_destroy_entity_def)

theorem second_destroy_pushes_again_witness:
  "\<exists>em'. and_then (EntityManager_destroy_entity 0 EntityManager_init)
            (EntityManager_destroy_entity 0) = Returns em' \<and>
         available_entities em' = available_entities EntityManager_init @ [0, 0]"
  using second_destroy_pushes_again [of 0 EntityManager_init] by (auto simp: range_facts)

text \<open>
  C6 as stated fails: after one creation, the second destruction of the id returns, and the
  id \<open>0\<close> is in the queue twice.
\<close>

theorem destroy_twice_returns:
  "destroy_twice =
     Returns \<lparr>available_entities = map word_of_nat [1..<MAX_ENTITIES] @ [0, 0],
              signatures = (\<lambda>_. 0), living_entity_count = - 1\<rparr>"
  by (simp add: destroy_twice_def create_entity_init EntityManager_destroy_entity_def
      range_facts fun_eq_iff)

section \<open>ComponentArray: consistency, insertion and removal\<close>

lemma wf_array_init: "wf_array (ComponentArray_init d)"
  by (simp add: wf_array_def ComponentArray_init_def)

lemma wf_array_index:
  assumes "wf_array a" and "entity_to_index_map a e = Some i"
  shows "i < array_size a" and "index_to_entity_map a i = Some e" and "0 < array_size a"
    and "array_size a \<le> MAX_ENTITIES"
proof -
  from assms show i2e: "index_to_entity_map a i = Some e" by (simp add: wf_array_def)
  then have "i \<in> dom (index_to_entity_map a)" by blast
  with assms(1) show "i < array_size a" by (simp add: wf_array_def)
  then show "0 < array_size a" by simp
  from assms(1) show "array_size a \<le> MAX_ENTITIES" by (simp add: wf_array_def)
qed

lemma wf_array_last:
  assumes "wf_array a" and "0 < array_size a"
  obtains l where "index_to_entity_map a (array_size a - 1) = Some l"
    and "entity_to_index_map a l = Some (array_size a - 1)"
proof -
  from assms have "array_size a - 1 \<in> dom (index_to_entity_map a)"
    by (simp add: wf_array_def)
  then obtain l where "index_to_entity_map a (array_size a - 1) = Some l" by blast
  moreover with assms(1) have "entity_to_index_map a l = Some (array_size a - 1)"
    by (simp add: wf_array_def)
  ultimately show ?thesis by (rule that)
qed

lemma insert_data_fresh:
  assumes wf: "wf_array a" and fresh: "entity_to_index_map a e = None"
    and room: "array_size a < MAX_ENTITIES"
  shows "\<exists>a'. insert_data e v a = Returns a' \<and> wf_array a' \<and>
           component_of a' = (component_of a)(e \<mapsto> v) \<and> array_size a' = array_size a + 1"
proof -
  let ?n = "array_size a"
  let ?a' = "a\<lparr>entity_to_index_map := (entity_to_index_map a)(e \<mapsto> ?n),
               index_to_entity_map := (index_to_entity_map a)(?n \<mapsto> e),
               component_array := (component_array a)(?n := v),
               array_size := ?n + 1\<rparr>"
  from room have r: "insert_data e v a = Returns ?a'"
    by (simp add: insert_data_def Let_def)
  from wf have nodom: "index_to_entity_map a ?n = None"
    by (auto simp: wf_array_def)
  from wf have inj: "entity_to_index_map a e' = Some j \<longleftrightarrow> index_to_entity_map a j = Some e'"
    for e' j by (simp add: wf_array_def)
  from fresh have noe: "index_to_entity_map a i \<noteq> Some e" for i
    by (simp add: inj [symmetric])
  from nodom have nolast: "entity_to_index_map a e' \<noteq> Some ?n" for e'
    by (simp add: inj)
  have "wf_array ?a'"
    unfolding wf_array_def
  proof (intro conjI allI)
    from room show "array_size ?a' \<le> MAX_ENTITIES" by simp
    from wf show "dom (index_to_entity_map ?a') = {i. i < array_size ?a'}"
      by (auto simp: wf_array_def)
    fix e' i
    from noe nolast
    show "entity_to_index_map ?a' e' = Some i \<longleftrightarrow> index_to_entity_map ?a' i = Some e'"
      by (simp add: inj)
  qed
  moreover have "component_of ?a' = (component_of a)(e \<mapsto> v)"
    using nolast by (auto simp: component_of_def fun_eq_iff map_option_case split: option.splits)
  ultimately show ?thesis using r by simp
qed

lemma remove_data_present:
  assumes wf: "wf_array a" and present: "entity_to_index_map a e = Some i"
  shows "\<exists>a'. remove_data e a = Returns a' \<and> wf_array a' \<and>
           component_of a' = (component_of a)(e := None) \<and>
           array_size a' = array_size a - 1"
proof -
  let ?n = "array_size a"
  let ?l = "?n - 1"
  note idx = wf_array_index [OF wf present]
  from idx obtain last where last: "index_to_entity_map a ?l = Some last"
    "entity_to_index_map a last = Some ?l"
    using wf_array_last [OF wf] by blast
  let ?a' = "a\<lparr>component_array := (component_array a)(i := component_array a ?l),
               entity_to_index_map := ((entity_to_index_map a)(last \<mapsto> i))(e := None),
               index_to_entity_map := ((index_to_entity_map a)(i \<mapsto> last))(?l := None),
               array_size := ?n - 1\<rparr>"
  from idx have bounds: "i < MAX_ENTITIES" "?l < MAX_ENTITIES" "?n \<noteq> 0" by simp_all
  have r: "remove_data e a = Returns ?a'"
    using bounds present last by (simp add: remove_data_def subscript_def Let_def)
  from wf have inj: "entity_to_index_map a e' = Some j \<longleftrightarrow> index_to_entity_map a j = Some e'"
    for e' j by (simp add: wf_array_def)
  from wf have dom: "index_to_entity_map a j \<noteq> None \<longleftrightarrow> j < ?n" for j
    by (auto simp: wf_array_def)
  have uniq: "j = k" if "index_to_entity_map a j = Some x" "index_to_entity_map a k = Some x"
    for j k x using that by (metis inj option.inject)
  have at_e: "index_to_entity_map a j = Some e \<longleftrightarrow> j = i" for j
    using idx(2) uniq by blast
  have at_last: "index_to_entity_map a j = Some last \<longleftrightarrow> j = ?l" for j
    using last(1) uniq by blast
  have same: "i = ?l \<longleftrightarrow> e = last"
  proof
    assume "i = ?l"
    with idx(2) last(1) show "e = last" by simp
  next
    assume "e = last"
    with last(1) at_e [of ?l] show "i = ?l" by simp
  qed
  have "wf_array ?a'"
    unfolding wf_array_def
  proof (intro conjI allI)
    from idx show "array_size ?a' \<le> MAX_ENTITIES" by simp
    show "dom (index_to_entity_map ?a') = {j. j < array_size ?a'}"
      using dom idx by (auto simp: dom_def)
    fix e' j
    show "entity_to_index_map ?a' e' = Some j \<longleftrightarrow> index_to_entity_map ?a' j = Some e'"
    proof (cases "e' = e")
      case True
      then show ?thesis using same by (simp add: at_e)
    next
      case False
      show ?thesis
      proof (cases "e' = last")
        case True
        with False same show ?thesis by (auto simp: at_last)
      next
        case False
        with \<open>e' \<noteq> e\<close> last(1) idx(2) show ?thesis by (auto simp: inj)
      qed
    qed
  qed
  moreover have "component_of ?a' e' = ((component_of a)(e := None)) e'" for e'
  proof (cases "e' = e")
    case True
    then show ?thesis by (simp add: component_of_def)
  next
    case False
    show ?thesis
    proof (cases "e' = last")
      case True
      with False last(2) show ?thesis by (simp add: component_of_def)
    next
      case False
      have "entity_to_index_map a e' \<noteq> Some i"
        using \<open>e' \<noteq> e\<close> by (simp add: inj at_e idx(2))
      with False \<open>e' \<noteq> e\<close> show ?thesis
        by (simp add: component_of_def map_option_case split: option.splits)
    qed
  qed
  then have "component_of ?a' = (component_of a)(e := None)" by (rule ext)
  ultimately show ?thesis using r by simp
qed

lemma insert_data_Returns:
  "insert_data e v a = Returns a' \<longleftrightarrow>
     array_size a < MAX_ENTITIES \<and>
     a' = a\<lparr>entity_to_index_map := (entity_to_index_map a)(e \<mapsto> array_size a),
            index_to_entity_map := (index_to_entity_map a)(array_size a \<mapsto> e),
            component_array := (component_array a)(array_size a := v),
            array_size := array_size a + 1\<rparr>"
  by (auto simp: insert_data_def Let_def)

lemma get_component_array_Returns:
  "get_component_array T cm = Returns a \<longleftrightarrow> map_of (component_arrays cm) T = Some a"
  by (simp add: get_component_array_def split: option.splits)

lemma get_component_array_put:
  "get_component_array T' (put_component_array T a cm) =
     (if T' = T then Returns a else get_component_array T' cm)"
  by (simp add: get_component_array_def put_component_array_def update_conv')

lemma get_component_type_arrays:
  "component_arrays (snd (get_component_type T cm)) = component_arrays cm"
  by (simp add: get_component_type_def split_beta)

lemma get_component_type_types:
  "component_types (snd (get_component_type T cm)) T = Some (fst (get_component_type T cm))"
  by (simp add: get_component_type_def split_beta subscript_def split: option.splits)

lemma update_signature_Returns:
  "update_signature T e val cm c = Returns c' \<longleftrightarrow>
     unat e < MAX_ENTITIES \<and> unat (fst (get_component_type T cm)) < MAX_COMPONENTS \<and>
     c' = c\<lparr>component_manager := snd (get_component_type T cm),
            entity_manager := (entity_manager c)\<lparr>signatures := (signatures (entity_manager c))
              (unat e := (if val then set_bit (unat (fst (get_component_type T cm)))
                                        (signatures (entity_manager c) (unat e))
                          else unset_bit (unat (fst (get_component_type T cm)))
                                        (signatures (entity_manager c) (unat e))))\<rparr>,
            system_manager := entity_signature_changed e
              (if val then set_bit (unat (fst (get_component_type T cm)))
                                        (signatures (entity_manager c) (unat e))
                          else unset_bit (unat (fst (get_component_type T cm)))
                                        (signatures (entity_manager c) (unat e)))
              (system_manager c)\<rparr>"
  by (auto simp: update_signature_def EntityManager_get_signature_def
      EntityManager_set_signature_def bitset_set_def split_beta)

lemma bit_set_signature:
  "n < MAX_COMPONENTS \<Longrightarrow> bit (set_bit n (s :: Signature)) n"
  by (simp add: bit_set_bit_iff MAX_COMPONENTS_def)

lemma bit_unset_signature: "\<not> bit (unset_bit n (s :: Signature)) n"
  by (simp add: bit_unset_bit_iff)

lemmas scenario_defs =
  sample_setup_def set_system_signature_def Coordinator_register_system_def
  Coordinator_register_component_def Coordinator_init_def ComponentManager_init_def
  SystemManager_init_def register_component_def register_system_def
  SystemManager_set_signature_def insert_new_def insert_new_entry_def ComponentArray_init_def
  Coordinator_create_entity_def Coordinator_add_component_eq Coordinator_remove_component_eq
  Coordinator_get_component_def ComponentManager_add_component_def
  ComponentManager_remove_component_def ComponentManager_get_component_def
  get_component_array_def put_component_array_def insert_data_def remove_data_def get_data_def
  update_signature_def get_component_type_def subscript_def bitset_set_def
  EntityManager_get_signature_def EntityManager_set_signature_def entity_signature_changed_def
  MAX_COMPONENTS_def Let_def

section \<open>Coordinator: components\<close>

text \<open>
  C2. For a component type \<open>T\<close> registered with the type id \<open>t\<close>: when
  \<open>add_component<T>(e, v)\<close> returns, \<open>get_component<T>(e)\<close> returns \<open>v\<close>, bit \<open>t\<close> is set in
  the signature of \<open>e\<close>, and \<open>T\<close> still has the type id \<open>t\<close>.
\<close>

theorem add_component_then_get:
  assumes registered: "component_types (component_manager c) T = Some t"
    and returns: "Coordinator_add_component T e v c = Returns c'"
  shows "(\<exists>c''. Coordinator_get_component T e c' = Returns (v, c'')) \<and>
         bit (signatures (entity_manager c') (unat e)) (unat t) \<and>
         component_types (component_manager c') T = Some t"
proof -
  from returns obtain a a' cm1
    where a: "get_component_array T (component_manager c) = Returns a"
      and a': "insert_data e v a = Returns a'"
      and cm1: "cm1 = put_component_array T a' (component_manager c)"
      and upd: "update_signature T e True cm1 c = Returns c'"
    by (auto simp: Coordinator_add_component_eq ComponentManager_add_component_def
        and_then_Returns)
  from registered cm1 have t: "get_component_type T cm1 = (t, cm1)"
    by (simp add: get_component_type_def subscript_def put_component_array_def)
  from upd t have range: "unat t < MAX_COMPONENTS"
    and cm': "component_manager c' = cm1"
    and sig: "signatures (entity_manager c') (unat e) =
                set_bit (unat t) (signatures (entity_manager c) (unat e))"
    by (simp_all add: update_signature_Returns)
  from cm' cm1 have arr: "get_component_array T (component_manager c') = Returns a'"
    by (simp add: get_component_array_def put_component_array_def update_conv')
  from a' have "get_data e a' = Returns (v, a')"
    by (auto simp: insert_data_Returns get_data_def subscript_def)
  with arr have "\<exists>c''. Coordinator_get_component T e c' = Returns (v, c'')"
    by (simp add: Coordinator_get_component_def ComponentManager_get_component_def)
  moreover from range sig have "bit (signatures (entity_manager c') (unat e)) (unat t)"
    by (simp add: bit_set_signature)
  moreover from registered cm' cm1 have "component_types (component_manager c') T = Some t"
    by (simp add: put_component_array_def)
  ultimately show ?thesis by blast
qed

theorem add_component_then_get_witness:
  "\<exists>c'. Coordinator_add_component ''Pixel'' 0 7 two_types_setup = Returns c' \<and>
        (\<exists>c''. Coordinator_get_component ''Pixel'' 0 c' = Returns (7, c'')) \<and>
        bit (signatures (entity_manager c') (unat (0 :: Entity))) 1 \<and>
        \<not> bit (signatures (entity_manager c') (unat (0 :: Entity))) 0"
proof -
  have registered: "component_types (component_manager two_types_setup) ''Pixel'' = Some 1"
    by (simp add: two_types_setup_def scenario_defs)
  have "\<exists>c'. Coordinator_add_component ''Pixel'' 0 7 two_types_setup = Returns c' \<and>
          \<not> bit (signatures (entity_manager c') (unat (0 :: Entity))) 0"
    by (simp add: two_types_setup_def scenario_defs range_facts EntityManager_init_def)
  then obtain c' where c': "Coordinator_add_component ''Pixel'' 0 7 two_types_setup = Returns c'"
    and other: "\<not> bit (signatures (entity_manager c') (unat (0 :: Entity))) 0"
    by blast
  from add_component_then_get [OF registered c'] c' other show ?thesis by auto
qed

text \<open>
  C7, as the code has it. \<open>insert_data\<close> for an entity that has an entry already, at a valid
  slot \<open>i\<close>, returns like any other insertion: the value is stored at the next free slot
  \<open>size_\<close>, both maps take the entity and that slot to each other, so that \<open>get_data\<close> now
  returns the new value, and \<open>size_\<close> grows by one; the old slot \<open>i\<close> keeps its value and its
  entry in \<open>index_to_entity_map_\<close>.
\<close>

theorem second_insert_remaps:
  assumes "entity_to_index_map a e = Some i" and "i < array_size a"
    and "array_size a < MAX_ENTITIES"
  shows "\<exists>a'. insert_data e v2 a = Returns a' \<and>
           component_array a' (array_size a) = v2 \<and>
           entity_to_index_map a' e = Some (array_size a) \<and>
           index_to_entity_map a' (array_size a) = Some e \<and>
           get_data e a' = Returns (v2, a') \<and>
           array_size a' = array_size a + 1 \<and>
           component_array a' i = component_array a i \<and>
           index_to_entity_map a' i = index_to_entity_map a i"
  using assms by (auto simp: insert_data_Returns get_data_def subscript_def)

theorem second_insert_remaps_witness:
  "\<exists>a'. insert_data 0 2
          \<lparr>component_array = (\<lambda>_. 0)(0 := 1 :: nat), entity_to_index_map = [0 \<mapsto> 0],
           index_to_entity_map = [0 \<mapsto> 0], array_size = 1\<rparr> = Returns a' \<and>
        get_data 0 a' = Returns (2, a') \<and> array_size a' = 2 \<and>
        component_array a' 1 = 2 \<and> component_array a' 0 = 1 \<and>
        index_to_entity_map a' 0 = Some 0 \<and> entity_to_index_map a' 0 = Some 1"
  using second_insert_remaps [of
      "\<lparr>component_array = (\<lambda>_. 0)(0 := 1 :: nat), entity_to_index_map = [0 \<mapsto> 0],
        index_to_entity_map = [0 \<mapsto> 0], array_size = 1\<rparr>" 0 0 2]
  by (auto simp: range_facts)

text \<open>
  C7 as stated fails: the second \<open>add_component\<close> of the same type returns, and the entity's
  component is then the second value.
\<close>

theorem add_component_twice_overwrites: "add_component_twice = Returns 2"
  by (simp add: add_component_twice_def scenario_defs create_entity_init range_facts)

lemma ComponentArray_entity_destroyed_wf:
  assumes wf: "wf_array a"
  shows "\<exists>a'. ComponentArray_entity_destroyed e a = Returns a' \<and> purged e a a'"
proof (cases "entity_to_index_map a e")
  case None
  then show ?thesis by (simp add: ComponentArray_entity_destroyed_def purged_def)
next
  case (Some i)
  from remove_data_present [OF wf Some] obtain a'
    where a': "remove_data e a = Returns a'" "component_of a' = (component_of a)(e := None)"
    by blast
  from a'(2) have "component_of a' e = None" by simp
  then have "entity_to_index_map a' e = None" by (simp add: component_of_def)
  with a' Some show ?thesis
    by (simp add: ComponentArray_entity_destroyed_def purged_def)
qed

lemma entity_destroyed_arrays_wf:
  "list_all (\<lambda>(T, a). wf_array a) al \<Longrightarrow>
   \<exists>al'. entity_destroyed_arrays e al = Returns al' \<and>
     list_all2 (\<lambda>(T, a) (T', a'). T' = T \<and> purged e a a') al al'"
proof (induction al)
  case Nil
  then show ?case by simp
next
  case (Cons p al)
  obtain T a where p: "p = (T, a)" by (cases p)
  from Cons.prems p have "wf_array a" by simp
  from ComponentArray_entity_destroyed_wf [OF this, of e] obtain a'
    where a': "ComponentArray_entity_destroyed e a = Returns a'" "purged e a a'"
    by blast
  from Cons obtain al' where al': "entity_destroyed_arrays e al = Returns al'"
    "list_all2 (\<lambda>(T, a) (T', a'). T' = T \<and> purged e a a') al al'"
    by auto
  from a' al' p show ?case by simp
qed

text \<open>
  C4, as the code has it. On a coordinator whose component arrays are all consistent,
  \<open>destroy_entity\<close> of an id in range returns; the signature of the id is empty, the id is
  at the back of the queue, no system's set contains it, and every component array is
  purged of it, an array that held nothing for it being unchanged.
\<close>

theorem destroy_entity_cascades:
  assumes range: "unat e < MAX_ENTITIES"
    and wf: "list_all (\<lambda>(T, a). wf_array a) (component_arrays (component_manager c))"
  shows "\<exists>c'. Coordinator_destroy_entity e c = Returns c' \<and>
           signatures (entity_manager c') (unat e) = 0 \<and>
           available_entities (entity_manager c') = available_entities (entity_manager c) @ [e] \<and>
           map fst (systems (system_manager c')) = map fst (systems (system_manager c)) \<and>
           list_all (\<lambda>(S, system). e \<notin> entities system) (systems (system_manager c')) \<and>
           list_all2 (\<lambda>(T, a) (T', a'). T' = T \<and> purged e a a')
             (component_arrays (component_manager c)) (component_arrays (component_manager c'))"
proof -
  from entity_destroyed_arrays_wf [OF wf, of e] obtain al'
    where al': "entity_destroyed_arrays e (component_arrays (component_manager c)) = Returns al'"
      and rel: "list_all2 (\<lambda>(T, a) (T', a'). T' = T \<and> purged e a a')
                (component_arrays (component_manager c)) al'"
    by blast
  have sys: "list_all (\<lambda>(S, system). e \<notin> entities system)
               (systems (SystemManager_entity_destroyed e (system_manager c)))"
    by (simp add: SystemManager_entity_destroyed_def list_all_iff split_beta)
  have keys: "map fst (systems (SystemManager_entity_destroyed e (system_manager c))) =
                map fst (systems (system_manager c))"
    by (simp add: SystemManager_entity_destroyed_def split_beta comp_def)
  from range al' rel sys keys show ?thesis
    by (simp add: Coordinator_destroy_entity_def EntityManager_destroy_entity_def
        ComponentManager_entity_destroyed_def)
qed

theorem destroy_entity_cascades_witness:
  "\<exists>c c'. sample_populated = Returns c \<and> Coordinator_destroy_entity 0 c = Returns c' \<and>
     signatures (entity_manager c') (unat (0 :: Entity)) = 0 \<and>
     list_all (\<lambda>(S, system). 0 \<notin> entities system) (systems (system_manager c'))"
proof -
  have "\<exists>c. sample_populated = Returns c \<and>
          list_all (\<lambda>(T, a). wf_array a) (component_arrays (component_manager c))"
    by (auto simp: sample_populated_def scenario_defs create_entity_init range_facts
        wf_array_def split: if_splits)
  then obtain c where c: "sample_populated = Returns c"
    and wf: "list_all (\<lambda>(T, a). wf_array a) (component_arrays (component_manager c))"
    by blast
  from destroy_entity_cascades [OF range_facts(1) wf] c show ?thesis by blast
qed

text \<open>
  C4 as stated fails where an array is not consistent: reading a component the entity does
  not have enters the entity into \<open>entity_to_index_map_\<close> of an empty array, and destroying
  the entity then reads \<open>component_array_[size_ - 1]\<close> with \<open>size_ = 0\<close>.
\<close>

theorem destroy_after_stray_get_undefined:
  "destroy_after_stray_get = Undefined ArrayOutOfRange"
  by (simp add: destroy_after_stray_get_def scenario_defs create_entity_init range_facts
      range_facts
      Coordinator_destroy_entity_def EntityManager_destroy_entity_def
      ComponentManager_entity_destroyed_def ComponentArray_entity_destroyed_def)

lemma get_data_missing_entry:
  assumes "entity_to_index_map a e = None"
  shows "get_data e a =
           Returns (component_array a 0,
                    a\<lparr>entity_to_index_map := (entity_to_index_map a)(e \<mapsto> 0)\<rparr>)"
  using assms by (simp add: get_data_def subscript_def range_facts)

lemma get_data_after_remove_data:
  assumes "wf_array a" and "entity_to_index_map a e = Some i"
  shows "\<exists>a' a''. remove_data e a = Returns a' \<and>
           component_of a' = (component_of a)(e := None) \<and>
           get_data e a' = Returns (component_array a' 0, a'')"
proof -
  from remove_data_present [OF assms] obtain a'
    where a': "remove_data e a = Returns a'"
      and data: "component_of a' = (component_of a)(e := None)"
    by blast
  from data have "component_of a' e = None" by simp
  then have "entity_to_index_map a' e = None" by (simp add: component_of_def)
  from get_data_missing_entry [OF this] a' data show ?thesis by blast
qed

text \<open>
  C3. \<open>remove_component<T>(e)\<close> for an entity that holds a component of type \<open>T\<close>: the call
  has no result, since \<open>ComponentManager::remove_component\<close> names a member that
  \<open>ComponentArray\<close> does not declare.
  (\<open>remove_data\<close>, which \<open>entity_destroyed\<close> calls, does remove an entry and keep the others;
  \<open>get_data\<close> for an entity without entry returns slot 0.)
\<close>

theorem remove_component_not_instantiable:
  "remove_after_add = Undefined UndeclaredMember"
  by (simp add: remove_after_add_def scenario_defs create_entity_init range_facts)

section \<open>Coordinator: systems follow signatures\<close>

lemma registered_after_change:
  "map_of (systems (entity_signature_changed e es sm)) S \<noteq> None \<longleftrightarrow>
   map_of (systems sm) S \<noteq> None"
  by (simp add: entity_signature_changed_def split_beta loop_lookup)

lemma registered_after_destroyed:
  "map_of (systems (SystemManager_entity_destroyed e sm)) S \<noteq> None \<longleftrightarrow>
   map_of (systems sm) S \<noteq> None"
  by (simp add: SystemManager_entity_destroyed_def map_of_map split_beta comp_def)

lemma required_after_destroyed:
  "required_signature (SystemManager_entity_destroyed e sm) S = required_signature sm S"
  by (simp add: SystemManager_entity_destroyed_def required_signature_def)

lemma in_sync_unpopulated:
  assumes "unpopulated c" and "map_of (systems (system_manager c)) S \<noteq> None"
    and "required_signature (system_manager c) S \<noteq> 0"
  shows "in_sync c S"
proof -
  from assms(2) obtain system where s: "map_of (systems (system_manager c)) S = Some system"
    by blast
  then have "(S, system) \<in> set (systems (system_manager c))" by (rule map_of_SomeD)
  with assms(1) have "entities system = {}" by (auto simp: unpopulated_def list_all_iff)
  with s have no: "\<not> member_of_system e S (system_manager c)" for e
    by (simp add: member_of_system_def)
  from assms(1) have "entity_signature c e = 0" if "unat e < MAX_ENTITIES" for e
    using that by (simp add: unpopulated_def entity_signature_def)
  with assms(2,3) no show ?thesis by (auto simp: in_sync_def)
qed

lemma in_sync_update_signature:
  assumes sync: "in_sync c S" and r: "update_signature T e0 val cm c = Returns c'"
  shows "in_sync c' S \<and>
         required_signature (system_manager c') S = required_signature (system_manager c) S"
proof -
  from r obtain sg where range: "unat e0 < MAX_ENTITIES"
    and em: "signatures (entity_manager c') = (signatures (entity_manager c))(unat e0 := sg)"
    and sm: "system_manager c' = entity_signature_changed e0 sg (system_manager c)"
    by (auto simp: update_signature_Returns)
  have req: "required_signature (system_manager c') S = required_signature (system_manager c) S"
    by (simp add: sm required_after_change)
  have sig: "entity_signature c' e = (if e = e0 then sg else entity_signature c e)" for e
    by (simp add: entity_signature_def em word_unat_eq_iff [symmetric])
  from sync have reg: "map_of (systems (system_manager c)) S \<noteq> None"
    and old: "member_of_system e S (system_manager c) \<longleftrightarrow>
          unat e < MAX_ENTITIES \<and>
          (entity_signature c e AND required_signature (system_manager c) S) =
            required_signature (system_manager c) S" for e
    by (simp_all add: in_sync_def)
  have "member_of_system e S (system_manager c') \<longleftrightarrow>
          unat e < MAX_ENTITIES \<and>
          (entity_signature c' e AND required_signature (system_manager c') S) =
            required_signature (system_manager c') S" for e
  proof (cases "e = e0")
    case True
    with reg range show ?thesis
      unfolding req by (simp add: sm member_after_change sig)
  next
    case False
    with reg old [of e] show ?thesis
      unfolding req by (simp add: sm member_after_change sig)
  qed
  moreover from reg have "map_of (systems (system_manager c')) S \<noteq> None"
    unfolding sm using registered_after_change [of e0 sg "system_manager c" S] by blast
  ultimately have "in_sync c' S" by (simp add: in_sync_def)
  then show ?thesis using req by (rule conjI)
qed

lemma in_sync_step:
  assumes sync: "in_sync c S" and nonempty: "required_signature (system_manager c) S \<noteq> 0"
    and r: "Coordinator_step c call = Returns c'"
  shows "in_sync c' S \<and>
         required_signature (system_manager c') S = required_signature (system_manager c) S"
proof (cases call)
  case Call_create_entity
  with r obtain em where "c' = c\<lparr>entity_manager := em\<rparr>"
    and "signatures em = signatures (entity_manager c)"
    by (auto simp: Coordinator_create_entity_def EntityManager_create_entity_def and_then_Returns
        split: list.splits)
  with sync show ?thesis by (simp add: in_sync_def entity_signature_def)
next
  case (Call_destroy_entity e0)
  with r have range: "unat e0 < MAX_ENTITIES"
    and em: "signatures (entity_manager c') = (signatures (entity_manager c))(unat e0 := 0)"
    and sm: "system_manager c' = SystemManager_entity_destroyed e0 (system_manager c)"
    by (auto simp: Coordinator_destroy_entity_def EntityManager_destroy_entity_def
        and_then_Returns split: if_splits)
  have req: "required_signature (system_manager c') S = required_signature (system_manager c) S"
    by (simp add: sm required_after_destroyed)
  have sig: "entity_signature c' e = (if e = e0 then 0 else entity_signature c e)" for e
    by (simp add: entity_signature_def em word_unat_eq_iff [symmetric])
  from sync have reg: "map_of (systems (system_manager c)) S \<noteq> None"
    and old: "member_of_system e S (system_manager c) \<longleftrightarrow>
          unat e < MAX_ENTITIES \<and>
          (entity_signature c e AND required_signature (system_manager c) S) =
            required_signature (system_manager c) S" for e
    by (simp_all add: in_sync_def)
  have "member_of_system e S (system_manager c') \<longleftrightarrow>
          unat e < MAX_ENTITIES \<and>
          (entity_signature c' e AND required_signature (system_manager c') S) =
            required_signature (system_manager c') S" for e
  proof (cases "e = e0")
    case True
    with nonempty show ?thesis
      unfolding req by (auto simp: sm member_after_destroyed sig)
  next
    case False
    with old [of e] show ?thesis
      unfolding req by (simp add: sm member_after_destroyed sig)
  qed
  moreover from reg have "map_of (systems (system_manager c')) S \<noteq> None"
    unfolding sm using registered_after_destroyed [of e0 "system_manager c" S] by blast
  ultimately have "in_sync c' S" by (simp add: in_sync_def)
  then show ?thesis using req by (rule conjI)
next
  case (Call_add_component T e0 v)
  with r obtain cm where "update_signature T e0 True cm c = Returns c'"
    by (auto simp: Coordinator_add_component_eq and_then_Returns)
  from in_sync_update_signature [OF sync this] show ?thesis .
next
  case (Call_remove_component T e0)
  with r obtain cm where "update_signature T e0 False cm c = Returns c'"
    by (auto simp: Coordinator_remove_component_eq and_then_Returns)
  from in_sync_update_signature [OF sync this] show ?thesis .
qed

lemma in_sync_run:
  "in_sync c S \<Longrightarrow> required_signature (system_manager c) S \<noteq> 0 \<Longrightarrow>
   Coordinator_run calls c = Returns c' \<Longrightarrow>
   in_sync c' S \<and>
   required_signature (system_manager c') S = required_signature (system_manager c) S"
proof (induction calls arbitrary: c)
  case Nil
  then show ?case by simp
next
  case (Cons call calls)
  from Cons.prems(3) obtain c1 where c1: "Coordinator_step c call = Returns c1"
    and rest: "Coordinator_run calls c1 = Returns c'"
    by (auto simp: and_then_Returns)
  from in_sync_step [OF Cons.prems(1,2) c1]
  have s1: "in_sync c1 S"
    and r1: "required_signature (system_manager c1) S = required_signature (system_manager c) S"
    by simp_all
  with Cons.prems(2) have "required_signature (system_manager c1) S \<noteq> 0" by simp
  from Cons.IH [OF s1 this rest] r1 show ?case by simp
qed

text \<open>
  C1, as the code has it. Start from a coordinator without entities in which the system \<open>S\<close>
  is registered with a signature that is not empty. After any sequence of \<open>create_entity\<close>,
  \<open>destroy_entity\<close>, \<open>add_component\<close> and \<open>remove_component\<close> calls that all return, the
  signature of \<open>S\<close> is the same, and an id in range is in the set of \<open>S\<close> if and only if
  its signature contains the signature of \<open>S\<close>.
\<close>

theorem system_membership_tracks_signature:
  assumes fresh: "unpopulated c0"
    and registered: "map_of (systems (system_manager c0)) S \<noteq> None"
    and stored: "system_signatures (system_manager c0) S = Some sig_S"
    and nonempty: "sig_S \<noteq> 0"
    and run: "Coordinator_run calls c0 = Returns c"
    and range: "unat e < MAX_ENTITIES"
  shows "required_signature (system_manager c) S = sig_S \<and>
         (member_of_system e S (system_manager c) \<longleftrightarrow> (entity_signature c e AND sig_S) = sig_S)"
proof -
  from stored have req: "required_signature (system_manager c0) S = sig_S"
    by (simp add: required_signature_def)
  with nonempty have ne: "required_signature (system_manager c0) S \<noteq> 0" by simp
  from in_sync_run [OF in_sync_unpopulated [OF fresh registered ne] ne run] req
  have "in_sync c S" and "required_signature (system_manager c) S = sig_S" by simp_all
  with range show ?thesis by (simp add: in_sync_def)
qed

theorem system_membership_tracks_signature_witness:
  "\<exists>c. Coordinator_run [Call_create_entity, Call_add_component ''Pixel'' 0 7] sample_setup =
          Returns c \<and>
       member_of_system 0 ''Render'' (system_manager c) \<and> entity_signature c 0 = 1"
proof -
  have fresh: "unpopulated sample_setup"
    by (simp add: unpopulated_def scenario_defs EntityManager_init_def)
  have registered: "map_of (systems (system_manager sample_setup)) ''Render'' \<noteq> None"
    by (simp add: scenario_defs)
  have stored: "system_signatures (system_manager sample_setup) ''Render'' = Some 1"
    by (simp add: scenario_defs)
  have "\<exists>c. Coordinator_run [Call_create_entity, Call_add_component ''Pixel'' 0 7] sample_setup =
          Returns c \<and> entity_signature c 0 = 1"
    by (simp add: scenario_defs create_entity_init range_facts entity_signature_def)
  then obtain c
    where run: "Coordinator_run [Call_create_entity, Call_add_component ''Pixel'' 0 7]
                  sample_setup = Returns c"
      and sg: "entity_signature c 0 = 1"
    by blast
  from system_membership_tracks_signature [OF fresh registered stored _ run range_facts(1)] sg
  have "member_of_system 0 ''Render'' (system_manager c)" by simp
  with run sg show ?thesis by blast
qed

text \<open>
  C1 as stated fails for a system with the empty signature: \<open>create_entity\<close> tells no
  system, so the second entity, whose empty signature contains the empty signature, is
  in no set.
\<close>

theorem unmutated_entity_not_member:
  "unmutated_entity_observed = Returns (1, False, 0, 0)"
  using entity_ids_from [of 0] entity_ids_from [of 1]
  by (simp add: unmutated_entity_observed_def empty_signature_setup_def scenario_defs
      EntityManager_create_entity_def EntityManager_init_def range_facts
      member_of_system_def entity_signature_def required_signature_def)

end
